theory Spec2Isabelle
  imports Complex_Main
begin

section \<open>Text primitives\<close>

text \<open>
  Document texts are Python \<open>str\<close> values. They are modelled as \<open>string\<close> (lists of
  8-bit characters): ASCII text, with a character outside ASCII standing as its UTF-8
  bytes. Case folding, white space, capitals and digits are the ASCII ones: the bytes
  of a non-ASCII character are neither letters, nor white space, nor digits. Python
  also folds, trims and tests the letters, spaces and digits outside ASCII (an accented
  capital, the no-break space); on a text with such characters the functions below
  leave them as they are.
\<close>

definition is_space :: "char \<Rightarrow> bool" where
  \<comment> \<open>\<open>str.isspace\<close> on ASCII: tab, LF, VT, FF, CR, the separators 0x1C-0x1F and the blank.\<close>
  "is_space c = ((9 \<le> (of_char c :: nat) \<and> (of_char c :: nat) \<le> 13)
      \<or> (28 \<le> (of_char c :: nat) \<and> (of_char c :: nat) \<le> 32))"

definition is_digit :: "char \<Rightarrow> bool" where
  "is_digit c = (48 \<le> (of_char c :: nat) \<and> (of_char c :: nat) \<le> 57)"

definition isupper :: "char \<Rightarrow> bool" where
  "isupper c = (65 \<le> (of_char c :: nat) \<and> (of_char c :: nat) \<le> 90)"

definition lower_char :: "char \<Rightarrow> char" where
  "lower_char c = (if isupper c then char_of ((of_char c :: nat) + 32) else c)"

definition lower :: "string \<Rightarrow> string" where
  \<comment> \<open>\<open>str.lower()\<close>\<close>
  "lower s = map lower_char s"

definition strip :: "string \<Rightarrow> string" where
  \<comment> \<open>\<open>str.strip()\<close>\<close>
  "strip s = rev (dropWhile is_space (rev (dropWhile is_space s)))"

fun startswith :: "string \<Rightarrow> string \<Rightarrow> bool" where
  \<comment> \<open>\<open>s.startswith(p)\<close>\<close>
  "startswith s [] = True"
| "startswith [] (p # ps) = False"
| "startswith (x # xs) (p # ps) = (x = p \<and> startswith xs ps)"

fun contains :: "string \<Rightarrow> string \<Rightarrow> bool" where
  \<comment> \<open>\<open>contains sub s\<close> is Python's \<open>sub in s\<close>\<close>
  "contains sub [] = (sub = [])"
| "contains sub (x # xs) = (startswith (x # xs) sub \<or> contains sub xs)"

fun join :: "string \<Rightarrow> string list \<Rightarrow> string" where
  \<comment> \<open>\<open>sep.join(xs)\<close>\<close>
  "join sep [] = []"
| "join sep [x] = x"
| "join sep (x # y # ys) = x @ sep @ join sep (y # ys)"

section \<open>Regular expressions\<close>

text \<open>
  The patterns of the catalog use a small fragment of Python's \<open>re\<close>: literal
  characters, one character of a class, a greedy \<open>*\<close>, \<open>+\<close> or \<open>?\<close> on a single
  character or class, the lazy \<open>.*?\<close>, a choice between literal strings (a class of
  non-ASCII symbols, as UTF-8) and capturing groups. A pattern is the list of its
  atoms; matching is backtracking in \<open>re\<close>'s priority order, and yields the captured
  groups and the unconsumed rest of the text.
\<close>

datatype cls = Space | Digit | DigitComma | NotNewline

fun in_cls :: "cls \<Rightarrow> char \<Rightarrow> bool" where
  "in_cls Space c = is_space c"
| "in_cls Digit c = is_digit c"
| "in_cls DigitComma c = (is_digit c \<or> c = CHR '','')"
| "in_cls NotNewline c = (c \<noteq> CHR 0x0A)"

datatype atom =
    Lit char            \<comment> \<open>a literal character\<close>
  | LitI char           \<comment> \<open>a literal character under \<open>re.IGNORECASE\<close>\<close>
  | One cls             \<comment> \<open>one character of a class\<close>
  | Star cls            \<comment> \<open>greedy \<open>*\<close>\<close>
  | Plus cls            \<comment> \<open>greedy \<open>+\<close>\<close>
  | Opt char            \<comment> \<open>greedy \<open>?\<close> on a literal\<close>
  | Lazy cls            \<comment> \<open>lazy \<open>*?\<close>\<close>
  | Alt "string list"   \<comment> \<open>one of several literal strings, in order\<close>
  | GOpen               \<comment> \<open>\<open>(\<close>\<close>
  | GClose              \<comment> \<open>\<open>)\<close>\<close>

type_synonym regex = "atom list"

text \<open>
  \<open>match_here p s opn grp\<close> matches \<open>p\<close> at the start of \<open>s\<close>; \<open>opn\<close> is the text of
  the group that is open (if one is), \<open>grp\<close> the groups closed so far.
\<close>

fun grab :: "string \<Rightarrow> string option \<Rightarrow> string option" where
  "grab cs None = None"
| "grab cs (Some g) = Some (g @ cs)"

fun alts :: "regex \<Rightarrow> nat" where
  "alts (Alt ws # p) = length ws"
| "alts p = 0"

function (sequential) match_here ::
  "regex \<Rightarrow> string \<Rightarrow> string option \<Rightarrow> string list \<Rightarrow> (string list \<times> string) option" where
  "match_here [] s opn grp = Some (grp, s)"
| "match_here (Lit c # p) s opn grp =
     (case s of [] \<Rightarrow> None
      | x # xs \<Rightarrow> if x = c then match_here p xs (grab [x] opn) grp else None)"
| "match_here (LitI c # p) s opn grp =
     (case s of [] \<Rightarrow> None
      | x # xs \<Rightarrow> if lower_char x = lower_char c then match_here p xs (grab [x] opn) grp else None)"
| "match_here (One k # p) s opn grp =
     (case s of [] \<Rightarrow> None
      | x # xs \<Rightarrow> if in_cls k x then match_here p xs (grab [x] opn) grp else None)"
| "match_here (Star k # p) s opn grp =
     (case s of [] \<Rightarrow> match_here p [] opn grp
      | x # xs \<Rightarrow>
          if in_cls k x then
            (case match_here (Star k # p) xs (grab [x] opn) grp of
               Some r \<Rightarrow> Some r
             | None \<Rightarrow> match_here p (x # xs) opn grp)
          else match_here p (x # xs) opn grp)"
| "match_here (Plus k # p) s opn grp =
     (case s of [] \<Rightarrow> None
      | x # xs \<Rightarrow> if in_cls k x then match_here (Star k # p) xs (grab [x] opn) grp else None)"
| "match_here (Opt c # p) s opn grp =
     (case s of [] \<Rightarrow> match_here p [] opn grp
      | x # xs \<Rightarrow>
          if x = c then
            (case match_here p xs (grab [x] opn) grp of
               Some r \<Rightarrow> Some r
             | None \<Rightarrow> match_here p (x # xs) opn grp)
          else match_here p (x # xs) opn grp)"
| "match_here (Lazy k # p) s opn grp =
     (case match_here p s opn grp of
        Some r \<Rightarrow> Some r
      | None \<Rightarrow>
          (case s of [] \<Rightarrow> None
           | x # xs \<Rightarrow> if in_cls k x then match_here (Lazy k # p) xs (grab [x] opn) grp else None))"
| "match_here (Alt [] # p) s opn grp = None"
| "match_here (Alt (w # ws) # p) s opn grp =
     (case (if startswith s w then match_here p (drop (length w) s) (grab w opn) grp else None) of
        Some r \<Rightarrow> Some r
      | None \<Rightarrow> match_here (Alt ws # p) s opn grp)"
| "match_here (GOpen # p) s opn grp = match_here p s (Some []) grp"
| "match_here (GClose # p) s opn grp =
     (case opn of None \<Rightarrow> match_here p s None grp
      | Some g \<Rightarrow> match_here p s None (grp @ [g]))"
  by pat_completeness auto
termination
  by (relation "measures [\<lambda>(p, s, opn, grp). length p, \<lambda>(p, s, opn, grp). length s,
        \<lambda>(p, s, opn, grp). alts p]") auto

text \<open>
  \<open>re.search\<close>: the leftmost position where the pattern matches. The result is the
  list of groups, the matched text (\<open>match.group()\<close>) and the text after the match.
\<close>

fun search :: "regex \<Rightarrow> string \<Rightarrow> (string list \<times> string \<times> string) option" where
  "search p [] =
     (case match_here p [] None [] of None \<Rightarrow> None | Some (g, r) \<Rightarrow> Some (g, [], r))"
| "search p (x # xs) =
     (case match_here p (x # xs) None [] of
        Some (g, r) \<Rightarrow> Some (g, take (length (x # xs) - length r) (x # xs), r)
      | None \<Rightarrow> search p xs)"

text \<open>
  \<open>re.finditer\<close>, as the list of the matched texts: the successive matches, each
  search starting where the previous match ended. No pattern of the catalog matches
  the empty text, so every match is followed by a strictly shorter rest.
\<close>

function finditer :: "regex \<Rightarrow> string \<Rightarrow> string list" where
  "finditer p s =
     (case search p s of
        None \<Rightarrow> []
      | Some (g, m, r) \<Rightarrow> m # (if length r < length s then finditer p r else []))"
  by pat_completeness auto
termination
  by (relation "measure (\<lambda>(p, s). length s)") auto

definition lits :: "string \<Rightarrow> regex" where
  "lits s = map Lit s"

definition litsI :: "string \<Rightarrow> regex" where
  "litsI s = map LitI s"

section \<open>The pattern catalog (config/validation\_config.py)\<close>

definition currency_symbols :: "string list" where
  \<comment> \<open>the class of the euro, dollar, pound, yen, rupee and rouble signs, in UTF-8\<close>
  "currency_symbols =
     [[CHR 0xE2, CHR 0x82, CHR 0xAC], ''$'', [CHR 0xC2, CHR 0xA3], [CHR 0xC2, CHR 0xA5],
      [CHR 0xE2, CHR 0x82, CHR 0xB9], [CHR 0xE2, CHR 0x82, CHR 0xBD]]"

definition number_atoms :: regex where
  \<comment> \<open>\<open>[\d,]+\.?\d*\<close>\<close>
  "number_atoms = [Plus DigitComma, Opt (CHR ''.''), Star Digit]"

definition CURRENCY_PATTERNS :: "regex list" where
  \<comment> \<open>matched with \<open>re.IGNORECASE\<close>\<close>
  "CURRENCY_PATTERNS =
     [ [Alt currency_symbols, Star Space] @ number_atoms,
       number_atoms @ [Star Space, Alt currency_symbols],
       litsI ''EUR'' @ [Plus Space] @ number_atoms,
       litsI ''USD'' @ [Plus Space] @ number_atoms,
       litsI ''GBP'' @ [Plus Space] @ number_atoms ]"

definition PLATFORM_KEYWORDS :: "string list" where
  "PLATFORM_KEYWORDS =
     [''meta'', ''facebook'', ''instagram'', ''google'', ''youtube'', ''tiktok'',
      ''search'', ''display'', ''programmatic'', ''microsoft'', ''linkedin'',
      ''twitter'', ''snapchat'', ''pinterest'']"

definition OBJECTIVE_KEYWORDS :: "string list" where
  "OBJECTIVE_KEYWORDS =
     [''sales'', ''traffic'', ''awareness'', ''leads'', ''conversions'', ''visits'',
      ''installs'', ''subscriptions'', ''engagement'', ''reach'', ''impressions'']"

definition STRATEGY_EXPLAINER_PATTERNS :: "regex list" where
  "STRATEGY_EXPLAINER_PATTERNS =
     [ lits ''2.'' @ [Star Space] @ lits ''strategy'' @ [Star Space] @ lits ''explainer'',
       lits ''2)'' @ [Star Space] @ lits ''strategy'' @ [Star Space] @ lits ''explainer'',
       lits ''strategy'' @ [Star Space] @ lits ''explainer'' @ [Star Space] @ lits '':'',
       lits ''2'' @ [Star Space] @ lits ''-'' @ [Star Space] @ lits ''strategy'' @ [Star Space]
         @ lits ''explainer'' ]"

definition CHANNEL_NORMALIZATIONS :: "(string \<times> string) list" where
  "CHANNEL_NORMALIZATIONS =
     [ (''facebook'', ''meta (facebook)''),
       (''instagram'', ''meta (instagram)''),
       (''meta combined'', ''meta (combined)''),
       (''meta (fb)'', ''meta (facebook)''),
       (''meta (ig)'', ''meta (instagram)''),
       (''google search'', ''google search''),
       (''google display network'', ''google display''),
       (''google responsive display'', ''google display''),
       (''youtube'', ''youtube ads''),
       (''tiktok'', ''tiktok ads''),
       (''microsoft search'', ''microsoft search''),
       (''microsoft audience network'', ''microsoft audience'') ]"

definition DEFAULT_BUDGET_TOLERANCE :: rat where
  "DEFAULT_BUDGET_TOLERANCE = 5 / 100"

definition DEFAULT_DURATION_TOLERANCE_DAYS :: int where
  "DEFAULT_DURATION_TOLERANCE_DAYS = 1"

section \<open>Documents and results\<close>

text \<open>
  A loaded Word document, as the extractors read it: the texts of its paragraphs in
  order, and its tables, each a list of rows, each row the list of its cells' texts.
\<close>

record document =
  paragraphs :: "string list"
  tables :: "string list list list"

datatype status = Pass | Fail | Warning | Skip

text \<open>
  A \<open>ValidationResult\<close>. The free-text \<open>details\<close> message is not modelled; \<open>expected\<close>
  and \<open>actual\<close> are \<open>None\<close> where the code leaves them out.
\<close>

record ('e, 'a) validation_result =
  check_name :: string
  status :: status
  expected :: "'e option"
  actual :: "'a option"

text \<open>
  A field of the JSON brief that the code converts with \<open>float()\<close> or \<open>int()\<close>: the
  key may be missing (the code then takes a default), hold a value the conversion
  accepts, or hold one it rejects (the conversion raises).
\<close>

datatype 'a field = Absent | Value 'a | Invalid

record creative_assets =
  has_assets :: "bool option"      \<comment> \<open>\<open>None\<close>: key missing\<close>
  description :: "string option"   \<comment> \<open>\<open>None\<close>: key missing\<close>

record brief =
  budget :: "rat field"
  campaign_duration_days :: "int field"
  creative_assets :: "creative_assets option"   \<comment> \<open>\<open>None\<close>: key missing\<close>

section \<open>Currency extraction (utils/document\_parser.py, CurrencyExtractor)\<close>

text \<open>
  A currency mention, one dictionary of \<open>currency_data\<close>. The amount is a Python
  float; it is modelled by the rational number that the decimal text denotes.
\<close>

record currency_mention =
  amount :: rat
  original_text :: string
  context_snippet :: string   \<comment> \<open>the key \<open>context\<close>\<close>
  platform :: "string option"
  near_objective :: bool
  near_impressions :: bool
  before_strategy :: bool

definition all_text_elements :: "document \<Rightarrow> string list" where
  \<comment> \<open>the stripped non-blank paragraph texts, then the stripped non-blank cell texts\<close>
  "all_text_elements doc =
     [strip p. p \<leftarrow> paragraphs doc, strip p \<noteq> []]
     @ [strip c. t \<leftarrow> tables doc, row \<leftarrow> t, c \<leftarrow> row, strip c \<noteq> []]"

definition is_strategy_explainer :: "string \<Rightarrow> bool" where
  \<comment> \<open>the inner loop: some pattern of the list is found in the text\<close>
  "is_strategy_explainer text_lower =
     list_ex (\<lambda>pattern. search pattern text_lower \<noteq> None) STRATEGY_EXPLAINER_PATTERNS"

definition is_creative_checklist :: "string \<Rightarrow> bool" where
  "is_creative_checklist text_lower =
     (contains ''creative'' text_lower
      \<and> (contains ''checklist'' text_lower \<or> contains ''requirements'' text_lower))"

text \<open>
  First pass: the section boundaries. The loop runs over \<open>enumerate(all_text_elements)\<close>
  with the strategy index found so far; the \<open>break\<close> at the creative checklist leaves
  the loop.
\<close>

fun first_pass :: "(nat \<times> string) list \<Rightarrow> nat option \<Rightarrow> nat option \<times> nat option" where
  "first_pass [] strategy_explainer_index = (strategy_explainer_index, None)"
| "first_pass ((i, text) # rest) strategy_explainer_index =
     (let text_lower = lower text;
          strategy_explainer_index' =
            (if is_strategy_explainer text_lower then Some i else strategy_explainer_index)
      in if is_creative_checklist text_lower then (strategy_explainer_index', Some i)
         else first_pass rest strategy_explainer_index')"

definition find_boundaries :: "string list \<Rightarrow> nat option \<times> nat option" where
  "find_boundaries elements = first_pass (enumerate 0 elements) None"

text \<open>The numeric value of a matched amount: digits, then optionally a point and digits.\<close>

definition digits_value :: "string \<Rightarrow> nat" where
  "digits_value ds = foldl (\<lambda>n c. 10 * n + ((of_char c :: nat) - 48)) 0 ds"

definition float_of_decimal :: "string \<Rightarrow> rat" where
  "float_of_decimal s =
     (let int_part = takeWhile is_digit s;
          frac_part = takeWhile is_digit (drop 1 (dropWhile is_digit s))
      in of_nat (digits_value int_part) + of_nat (digits_value frac_part) / 10 ^ length frac_part)"

definition numeric_value :: "string \<Rightarrow> rat option" where
  \<comment> \<open>\<open>re.search(r'[\d,]+\.?\d*', amount_str.replace(',', ''))\<close>, then \<open>float\<close> of the match\<close>
  "numeric_value amount_str =
     (case search number_atoms (filter (\<lambda>c. c \<noteq> CHR '','') amount_str) of
        None \<Rightarrow> None
      | Some (g, m, r) \<Rightarrow> Some (float_of_decimal (filter (\<lambda>c. c \<noteq> CHR '','') m)))"

definition context_text :: "string list \<Rightarrow> nat \<Rightarrow> string \<Rightarrow> string" where
  \<comment> \<open>the lower-cased texts of the previous, the current and the next element\<close>
  "context_text elements i text =
     (let c0 = lower text;
          c1 = (if i > 0 then lower (elements ! (i - 1)) @ '' '' @ c0 else c0)
      in if i < length elements - 1 then c1 @ '' '' @ lower (elements ! (i + 1)) else c1)"

text \<open>
  \<open>len(text)\<close> and \<open>text[:n]\<close> count characters, not bytes: in UTF-8 a character is
  a byte that is not a continuation byte (\<open>0x80\<close> to \<open>0xBF\<close>) with the continuation
  bytes that follow it.
\<close>

definition is_continuation :: "char \<Rightarrow> bool" where
  "is_continuation c = (128 \<le> (of_char c :: nat) \<and> (of_char c :: nat) \<le> 191)"

definition len :: "string \<Rightarrow> nat" where
  "len text = length (filter (\<lambda>c. \<not> is_continuation c) text)"

fun take_chars :: "nat \<Rightarrow> string \<Rightarrow> string" where
  "take_chars n [] = []"
| "take_chars n (c # cs) =
     (if is_continuation c then c # take_chars n cs
      else (case n of 0 \<Rightarrow> [] | Suc k \<Rightarrow> c # take_chars k cs))"

definition make_mention :: "string list \<Rightarrow> nat \<Rightarrow> string \<Rightarrow> string \<Rightarrow> rat \<Rightarrow> currency_mention" where
  "make_mention elements i text amount_str amt =
     (let ctx = context_text elements i text in
      \<lparr> amount = amt,
        original_text = amount_str,
        context_snippet = (if len text > 100 then take_chars 100 text @ ''...'' else text),
        platform = find (\<lambda>keyword. contains keyword ctx) PLATFORM_KEYWORDS,
        near_objective = list_ex (\<lambda>obj. contains obj ctx) OBJECTIVE_KEYWORDS,
        near_impressions = (contains ''impression'' ctx \<or> contains ''reach'' ctx),
        before_strategy = True \<rparr>)"

definition element_mentions :: "string list \<Rightarrow> nat \<Rightarrow> string \<Rightarrow> currency_mention list" where
  \<comment> \<open>the body of the second loop for a processed element: every match of every pattern\<close>
  "element_mentions elements i text =
     concat (map (\<lambda>pattern.
       concat (map (\<lambda>amount_str.
         (case numeric_value amount_str of
            None \<Rightarrow> []
          | Some amt \<Rightarrow> [make_mention elements i text amount_str amt]))
         (finditer pattern text)))
       CURRENCY_PATTERNS)"

definition should_process :: "nat option \<Rightarrow> nat option \<Rightarrow> nat \<Rightarrow> bool" where
  "should_process strategy_explainer_index creative_checklist_index i =
     (if strategy_explainer_index = None then True
      else if i < the strategy_explainer_index then True
      else if creative_checklist_index \<noteq> None \<and> i \<ge> the creative_checklist_index then True
      else False)"

text \<open>Second pass: the loop over \<open>enumerate(all_text_elements)\<close>, appending to \<open>currency_data\<close>.\<close>

fun second_pass ::
  "string list \<Rightarrow> nat option \<Rightarrow> nat option \<Rightarrow> (nat \<times> string) list
     \<Rightarrow> currency_mention list \<Rightarrow> currency_mention list" where
  "second_pass elements sx cx [] currency_data = currency_data"
| "second_pass elements sx cx ((i, text) # rest) currency_data =
     (if \<not> should_process sx cx i then second_pass elements sx cx rest currency_data
      else second_pass elements sx cx rest (currency_data @ element_mentions elements i text))"

definition extract_currency_amounts_from_text :: "document \<Rightarrow> currency_mention list" where
  "extract_currency_amounts_from_text doc =
     (let elements = all_text_elements doc;
          (strategy_explainer_index, creative_checklist_index) = find_boundaries elements
      in second_pass elements strategy_explainer_index creative_checklist_index
           (enumerate 0 elements) [])"

section \<open>Campaign dates (DocumentSectionDetector.extract\_campaign\_dates)\<close>

definition bs :: char where
  \<comment> \<open>the backslash\<close>
  "bs = CHR 0x5C"

definition date_src :: string where
  \<comment> \<open>the text \<open>(\d{4}-\d{2}-\d{2})\<close>\<close>
  "date_src = ''('' @ [bs] @ ''d{4}-'' @ [bs] @ ''d{2}-'' @ [bs] @ ''d{2})''"

definition date_group :: regex where
  "date_group =
     [GOpen, One Digit, One Digit, One Digit, One Digit, LitI (CHR ''-''), One Digit, One Digit,
      LitI (CHR ''-''), One Digit, One Digit, GClose]"

definition any_lazy :: regex where
  \<comment> \<open>\<open>.*?\<close>\<close>
  "any_lazy = [Lazy NotNewline]"

text \<open>
  Each date pattern with its text (the code tests \<open>'start' in pattern\<close>) and its atoms;
  the patterns are searched with \<open>re.IGNORECASE\<close>.
\<close>

definition date_patterns :: "(string \<times> regex) list" where
  "date_patterns =
     [ (''campaign'' @ [bs] @ ''s+start.*?'' @ date_src,
        litsI ''campaign'' @ [Plus Space] @ litsI ''start'' @ any_lazy @ date_group),
       (''start'' @ [bs] @ ''s+date.*?'' @ date_src,
        litsI ''start'' @ [Plus Space] @ litsI ''date'' @ any_lazy @ date_group),
       (''campaign'' @ [bs] @ ''s+end.*?'' @ date_src,
        litsI ''campaign'' @ [Plus Space] @ litsI ''end'' @ any_lazy @ date_group),
       (''end'' @ [bs] @ ''s+date.*?'' @ date_src,
        litsI ''end'' @ [Plus Space] @ litsI ''date'' @ any_lazy @ date_group),
       (''duration.*?'' @ date_src @ ''.*?to.*?'' @ date_src,
        litsI ''duration'' @ any_lazy @ date_group @ any_lazy @ litsI ''to'' @ any_lazy @ date_group),
       (date_src @ ''.*?to.*?'' @ date_src,
        date_group @ any_lazy @ litsI ''to'' @ any_lazy @ date_group) ]"

definition group1 :: "string list \<Rightarrow> string" where
  \<comment> \<open>\<open>match.group(1)\<close>; every pattern of the list has a first group\<close>
  "group1 groups = (case groups of [] \<Rightarrow> [] | g # _ \<Rightarrow> g)"

text \<open>The body of the inner loop, on the pair \<open>(start_date, end_date)\<close>.\<close>

fun apply_pattern ::
  "string \<Rightarrow> string \<times> regex \<Rightarrow> string option \<times> string option \<Rightarrow> string option \<times> string option" where
  "apply_pattern text (pattern, prog) (start_date, end_date) =
     (case search prog text of
        None \<Rightarrow> (start_date, end_date)
      | Some (groups, m, r) \<Rightarrow>
          if contains ''start'' pattern then (Some (group1 groups), end_date)
          else if contains ''end'' pattern then (start_date, Some (group1 groups))
          else if length groups = 2 then (Some (groups ! 0), Some (groups ! 1))
          else (start_date, end_date))"

fun pattern_loop ::
  "string \<Rightarrow> (string \<times> regex) list \<Rightarrow> string option \<times> string option \<Rightarrow> string option \<times> string option" where
  "pattern_loop text [] dates = dates"
| "pattern_loop text (pattern # rest) dates = pattern_loop text rest (apply_pattern text pattern dates)"

fun paragraph_loop ::
  "string list \<Rightarrow> string option \<times> string option \<Rightarrow> string option \<times> string option" where
  "paragraph_loop [] dates = dates"
| "paragraph_loop (paragraph # rest) dates =
     paragraph_loop rest (pattern_loop (lower paragraph) date_patterns dates)"

definition extract_campaign_dates :: "document \<Rightarrow> string option \<times> string option" where
  "extract_campaign_dates doc = paragraph_loop (paragraphs doc) (None, None)"

text \<open>
  The assignments that the scan makes, in scan order (paragraph by paragraph, pattern
  by pattern): each is a pair of the value given to \<open>start_date\<close> and the value given
  to \<open>end_date\<close>, \<open>None\<close> for a variable the assignment leaves alone.
\<close>

fun assignment :: "string \<Rightarrow> string \<times> regex \<Rightarrow> (string option \<times> string option) list" where
  "assignment text (pattern, prog) =
     (case search prog text of
        None \<Rightarrow> []
      | Some (groups, m, r) \<Rightarrow>
          if contains ''start'' pattern then [(Some (group1 groups), None)]
          else if contains ''end'' pattern then [(None, Some (group1 groups))]
          else if length groups = 2 then [(Some (groups ! 0), Some (groups ! 1))]
          else [])"

definition assignments :: "string list \<Rightarrow> (string option \<times> string option) list" where
  "assignments paras =
     concat (map (\<lambda>paragraph. concat (map (assignment (lower paragraph)) date_patterns)) paras)"

fun last_some :: "'a option list \<Rightarrow> 'a option" where
  \<comment> \<open>the last value of a list of optional values\<close>
  "last_some [] = None"
| "last_some (x # xs) = (case last_some xs of Some v \<Rightarrow> Some v | None \<Rightarrow> x)"

definition keep :: "'a option \<Rightarrow> 'a option list \<Rightarrow> 'a option" where
  \<comment> \<open>a variable after a list of optional assignments\<close>
  "keep old xs = (case last_some xs of Some v \<Rightarrow> Some v | None \<Rightarrow> old)"

section \<open>Dates (datetime.strptime with the format \%Y-\%m-\%d)\<close>

text \<open>
  \<open>strptime\<close> matches the text against the regular expression of the format, a
  four-digit year, a month \<open>1[0-2]|0[1-9]|[1-9]\<close> and a day
  \<open>3[0-1]|[1-2]\d|0[1-9]|[1-9]| [1-9]\<close> separated by \<open>-\<close>, rejects a text with
  unconverted data after the match, and builds the date, which rejects the year 0 and a
  day that the month does not have.
\<close>

definition show1 :: "nat \<Rightarrow> string" where
  "show1 n = [char_of (48 + n)]"

definition show2 :: "nat \<Rightarrow> string" where
  "show2 n = [char_of (48 + n div 10), char_of (48 + n mod 10)]"

definition month_alts :: "string list" where
  "month_alts = map show2 [10..<13] @ map show2 [1..<10] @ map show1 [1..<10]"

definition day_alts :: "string list" where
  "day_alts = map show2 [30..<32] @ map show2 [10..<30] @ map show2 [1..<10] @ map show1 [1..<10]
       @ map (\<lambda>n. '' '' @ show1 n) [1..<10]"

definition strptime_regex :: regex where
  "strptime_regex =
     [GOpen, One Digit, One Digit, One Digit, One Digit, GClose, Lit (CHR ''-''),
      GOpen, Alt month_alts, GClose, Lit (CHR ''-''), GOpen, Alt day_alts, GClose]"

definition is_leap :: "nat \<Rightarrow> bool" where
  "is_leap y = (y mod 4 = 0 \<and> (y mod 100 \<noteq> 0 \<or> y mod 400 = 0))"

definition days_in_month :: "nat \<Rightarrow> nat \<Rightarrow> nat" where
  "days_in_month y m =
     (if m = 2 then (if is_leap y then 29 else 28)
      else if m = 4 \<or> m = 6 \<or> m = 9 \<or> m = 11 then 30 else 31)"

type_synonym date = "nat \<times> nat \<times> nat"

definition strptime :: "string \<Rightarrow> date option" where
  "strptime data_string =
     (case match_here strptime_regex data_string None [] of
        Some ([ys, ms, ds], []) \<Rightarrow>
          (let y = digits_value ys; m = digits_value ms; d = digits_value (filter is_digit ds)
           in if 1 \<le> y \<and> d \<le> days_in_month y m then Some (y, m, d) else None)
      | _ \<Rightarrow> None)"

definition days_before_year :: "nat \<Rightarrow> int" where
  "days_before_year y = (let n = int y - 1 in n * 365 + n div 4 - n div 100 + n div 400)"

definition days_before_month :: "nat \<Rightarrow> nat \<Rightarrow> int" where
  "days_before_month y m = int (sum_list (map (days_in_month y) [1..<m]))"

fun toordinal :: "date \<Rightarrow> int" where
  "toordinal (y, m, d) = days_before_year y + days_before_month y m + int d"

section \<open>The checks (media\_plan\_validator.py, MediaPlanValidator)\<close>

definition falsy :: "string option \<Rightarrow> bool" where
  \<comment> \<open>\<open>not x\<close> for an optional text: \<open>None\<close> or the empty text\<close>
  "falsy x = (x = None \<or> x = Some [])"

definition error_result :: "string \<Rightarrow> ('e, 'a) validation_result" where
  \<comment> \<open>the result of the \<open>except\<close> clause of a check\<close>
  "error_result name = \<lparr> check_name = name, status = Fail, expected = None, actual = None \<rparr>"

definition validate_duration ::
  "brief \<Rightarrow> string option \<Rightarrow> string option \<Rightarrow> (int, int) validation_result" where
  "validate_duration json_brief start_date end_date =
     (if falsy start_date \<or> falsy end_date then
        \<lparr> check_name = ''duration_check'', status = Warning, expected = None, actual = None \<rparr>
      else
        (case strptime (the start_date) of
           None \<Rightarrow> error_result ''duration_check''
         | Some start_dt \<Rightarrow>
             (case strptime (the end_date) of
                None \<Rightarrow> error_result ''duration_check''
              | Some end_dt \<Rightarrow>
                  (let actual_duration = toordinal end_dt - toordinal start_dt + 1 in
                   (case campaign_duration_days json_brief of
                      Invalid \<Rightarrow> error_result ''duration_check''
                    | days \<Rightarrow>
                        (let expected_duration = (case days of Value n \<Rightarrow> n | _ \<Rightarrow> 0);
                             st = (if actual_duration = expected_duration then Pass
                                   else if \<bar>actual_duration - expected_duration\<bar>
                                             \<le> DEFAULT_DURATION_TOLERANCE_DAYS then Pass
                                   else Fail)
                         in \<lparr> check_name = ''duration_check'', status = st,
                              expected = Some expected_duration,
                              actual = Some actual_duration \<rparr>))))))"

text \<open>
  The budget check. \<open>tolerance\<close> is the validator's \<open>self.tolerance\<close>. The float
  arithmetic of the code is modelled by exact arithmetic on rationals: an amount is
  the exact value of its decimal text, where the code has the nearest float, and sums,
  differences and products are exact. A comparison can differ from the code's only
  when its two sides are within a rounding error of each other.
\<close>

datatype budget_actual =
    Zero                                                       \<comment> \<open>the number 0\<close>
  | Mentions "currency_mention list"                           \<comment> \<open>\<open>currency_data\<close>\<close>
  | Summary rat "currency_mention list" "currency_mention list"
      \<comment> \<open>the keys \<open>total\<close>, \<open>budget_amounts\<close> and \<open>all_currency_data\<close>\<close>

definition in_budget_range :: "rat \<Rightarrow> currency_mention \<Rightarrow> bool" where
  "in_budget_range expected_budget item =
     (100 \<le> amount item \<and> amount item \<le> expected_budget * 2)"

definition validate_budget_from_text ::
  "rat \<Rightarrow> brief \<Rightarrow> document \<Rightarrow> (rat, budget_actual) validation_result" where
  "validate_budget_from_text tolerance json_brief doc =
     (case budget json_brief of
        Invalid \<Rightarrow> error_result ''budget_check''
      | b \<Rightarrow>
          (let expected_budget = (case b of Value v \<Rightarrow> v | _ \<Rightarrow> 0);
               currency_data = extract_currency_amounts_from_text doc
           in if currency_data = [] then
                \<lparr> check_name = ''budget_check'', status = Fail,
                  expected = Some expected_budget, actual = Some Zero \<rparr>
              else
                (let likely_budgets =
                       filter (\<lambda>item. (near_objective item \<or> near_impressions item)
                                 \<and> in_budget_range expected_budget item) currency_data;
                     likely_budgets =
                       (if likely_budgets = []
                        then filter (in_budget_range expected_budget) currency_data
                        else likely_budgets)
                 in if likely_budgets = [] then
                      \<lparr> check_name = ''budget_check'', status = Warning,
                        expected = Some expected_budget, actual = Some (Mentions currency_data) \<rparr>
                    else
                      (let total_found = sum_list (map amount likely_budgets);
                           difference = \<bar>expected_budget - total_found\<bar>;
                           tolerance_amount = expected_budget * tolerance
                       in \<lparr> check_name = ''budget_check'',
                            status = (if difference \<le> tolerance_amount then Pass else Fail),
                            expected = Some expected_budget,
                            actual = Some (Summary total_found likely_budgets currency_data) \<rparr>))))"

text \<open>
  The channel consistency check, on the channels extracted from the plan table
  (\<open>plan_channels\<close>) and from the strategy narrative (\<open>strategy_channels\<close>). The count
  comparison \<open>count_match\<close> of the code only adds a sentence to the details message.
\<close>

definition normalize_channel_name :: "string \<Rightarrow> string" where
  "normalize_channel_name channel =
     (let channel = strip (lower channel)
      in case map_of CHANNEL_NORMALIZATIONS channel of None \<Rightarrow> channel | Some v \<Rightarrow> v)"

text \<open>
  The same function with the library functions \<open>str.lower\<close> and \<open>str.strip\<close> as
  parameters. Python's are Unicode-aware: they also fold capitals and trim white space
  outside ASCII. \<open>str_laws\<close> states what is used of them: lower-casing twice is
  lower-casing once, trimming twice is trimming once, lower-casing commutes with
  trimming, and on ASCII text they are the functions \<open>lower\<close> and \<open>strip\<close>.
\<close>

definition normalize_with :: "(string \<Rightarrow> string) \<Rightarrow> (string \<Rightarrow> string) \<Rightarrow> string \<Rightarrow> string" where
  "normalize_with lower_fn strip_fn channel =
     (let channel = strip_fn (lower_fn channel)
      in case map_of CHANNEL_NORMALIZATIONS channel of None \<Rightarrow> channel | Some v \<Rightarrow> v)"

definition ascii_text :: "string \<Rightarrow> bool" where
  "ascii_text s = list_all (\<lambda>c. (of_char c :: nat) < 128) s"

definition str_laws :: "(string \<Rightarrow> string) \<Rightarrow> (string \<Rightarrow> string) \<Rightarrow> bool" where
  "str_laws lower_fn strip_fn =
     ((\<forall>s. lower_fn (lower_fn s) = lower_fn s)
      \<and> (\<forall>s. strip_fn (strip_fn s) = strip_fn s)
      \<and> (\<forall>s. lower_fn (strip_fn s) = strip_fn (lower_fn s))
      \<and> (\<forall>s. ascii_text s \<longrightarrow> lower_fn s = lower s \<and> strip_fn s = strip s))"

definition validate_channel_consistency ::
  "string list \<Rightarrow> string list
     \<Rightarrow> (string list \<times> string list \<times> string list \<times> string list,
         string set \<times> string set \<times> string set) validation_result" where
  "validate_channel_consistency plan_channels strategy_channels =
     (if plan_channels = [] then
        \<lparr> check_name = ''channel_consistency_check'', status = Warning,
          expected = None, actual = None \<rparr>
      else if strategy_channels = [] then
        \<lparr> check_name = ''channel_consistency_check'', status = Warning,
          expected = None, actual = None \<rparr>
      else
        (let normalized_plan = map normalize_channel_name plan_channels;
             normalized_strategy = map normalize_channel_name strategy_channels;
             plan_set = set normalized_plan;
             strategy_set = set normalized_strategy;
             matching_channels = plan_set \<inter> strategy_set;
             missing_in_strategy = plan_set - strategy_set;
             missing_in_plan = strategy_set - plan_set;
             count_match = (length plan_channels = length strategy_channels);
             st = (if card matching_channels = card plan_set \<and> card plan_set = card strategy_set
                   then Pass else Fail)
         in \<lparr> check_name = ''channel_consistency_check'', status = st,
              expected = Some (plan_channels, strategy_channels, normalized_plan, normalized_strategy),
              actual = Some (matching_channels, missing_in_strategy, missing_in_plan) \<rparr>))"

text \<open>The creative assets check.\<close>

definition asset_types_of :: "string \<Rightarrow> string list" where
  "asset_types_of descr =
     (if contains ''image'' descr then [''image''] else [])
     @ (if contains ''video'' descr then [''video''] else [])
     @ (if contains ''banner'' descr then [''banner''] else [])
     @ (if contains ''carousel'' descr then [''carousel''] else [])"

definition brief_has_assets :: "brief \<Rightarrow> bool" where
  \<comment> \<open>\<open>json_brief.get('creative_assets', {}).get('has_assets', False)\<close>\<close>
  "brief_has_assets json_brief =
     (case creative_assets json_brief of
        None \<Rightarrow> False
      | Some assets \<Rightarrow> (case has_assets assets of None \<Rightarrow> False | Some b \<Rightarrow> b))"

definition brief_description :: "brief \<Rightarrow> string" where
  \<comment> \<open>\<open>json_brief.get('creative_assets', {}).get('description', '').lower()\<close>\<close>
  "brief_description json_brief =
     lower (case creative_assets json_brief of
              None \<Rightarrow> []
            | Some assets \<Rightarrow> (case description assets of None \<Rightarrow> [] | Some d \<Rightarrow> d))"

definition checklist_text :: "string list \<Rightarrow> string" where
  "checklist_text creative_checklist = lower (join '' '' creative_checklist)"

definition missing_types_of :: "string list \<Rightarrow> string list \<Rightarrow> string list" where
  "missing_types_of asset_types creative_checklist =
     filter (\<lambda>asset_type. \<not> contains asset_type (checklist_text creative_checklist)) asset_types"

definition validate_creative_assets ::
  "brief \<Rightarrow> string list \<Rightarrow> (string list, string list) validation_result" where
  "validate_creative_assets json_brief creative_checklist =
     (if \<not> brief_has_assets json_brief then
        (if creative_checklist \<noteq> [] then
           \<lparr> check_name = ''creative_check'', status = Warning, expected = None, actual = None \<rparr>
         else
           \<lparr> check_name = ''creative_check'', status = Pass, expected = None, actual = None \<rparr>)
      else if creative_checklist = [] then
        \<lparr> check_name = ''creative_check'', status = Warning, expected = None, actual = None \<rparr>
      else
        (let asset_types = asset_types_of (brief_description json_brief);
             missing_types = missing_types_of asset_types creative_checklist
         in \<lparr> check_name = ''creative_check'',
              status = (if missing_types = [] then Pass else Warning),
              expected = Some asset_types, actual = Some creative_checklist \<rparr>))"

text \<open>The overall status of a report (\<open>validate_media_plan\<close>), from the list of its checks.\<close>

definition overall_status :: "('e, 'a) validation_result list \<Rightarrow> status" where
  "overall_status checks =
     (let statuses = map status checks
      in if Fail \<in> set statuses then Fail
         else if Warning \<in> set statuses then Warning
         else Pass)"

section \<open>The creative checklist (DocumentSectionDetector.extract\_creative\_checklist)\<close>











section \<open>Positions in a list\<close>

fun first_index :: "('a \<Rightarrow> bool) \<Rightarrow> 'a list \<Rightarrow> nat option" where
  "first_index P [] = None"
| "first_index P (x # xs) = (if P x then Some 0 else map_option Suc (first_index P xs))"

fun last_index :: "('a \<Rightarrow> bool) \<Rightarrow> 'a list \<Rightarrow> nat option" where
  "last_index P [] = None"
| "last_index P (x # xs) =
     (case last_index P xs of Some j \<Rightarrow> Some (Suc j) | None \<Rightarrow> if P x then Some 0 else None)"

definition strategy_heading :: "string \<Rightarrow> bool" where
  "strategy_heading e = is_strategy_explainer (lower e)"

definition checklist_heading :: "string \<Rightarrow> bool" where
  "checklist_heading e = is_creative_checklist (lower e)"

definition scanned :: "string list \<Rightarrow> string list" where
  \<comment> \<open>the elements that the first pass reads: up to the first creative checklist heading\<close>
  "scanned xs =
     (case first_index checklist_heading xs of
        None \<Rightarrow> xs
      | Some j \<Rightarrow> take (Suc j) xs)"

definition processed_positions :: "document \<Rightarrow> nat list" where
  \<comment> \<open>the positions of the elements that the second pass does not skip\<close>
  "processed_positions doc =
     (let elements = all_text_elements doc;
          (strategy_explainer_index, creative_checklist_index) = find_boundaries elements
      in filter (should_process strategy_explainer_index creative_checklist_index)
           [0..<length elements])"

section \<open>Example inputs\<close>

definition plan_doc :: document where
  "plan_doc =
     \<lparr> paragraphs = [''Objective: Sales - Budget: $1,050'', ''  '', ''2. Strategy Explainer'',
                      ''We spend $300 on meta'', ''Creative Checklist'', ''- banner 12.50 $''],
       tables = [[[''Platform'', ''Cost''], [''Google'', ''EUR 500'']]] \<rparr>"

definition headings :: "string list" where
  "headings =
     [''2. Strategy Explainer'', ''Strategy Explainer: why'', ''Creative Checklist'',
      ''2) Strategy Explainer recap'']"

definition brief30 :: brief where
  "brief30 = \<lparr> budget = Value 1000, campaign_duration_days = Value 30, creative_assets = None \<rparr>"

definition dates_doc :: document where
  "dates_doc =
     \<lparr> paragraphs = [''Campaign Start: 2024-01-01'', ''Duration: 2024-02-01 to 2024-02-28'',
                      ''start date 2025-01-01''],
       tables = [] \<rparr>"


definition no_assets_brief :: brief where
  "no_assets_brief =
     \<lparr> budget = Value 1000, campaign_duration_days = Value 30,
       creative_assets = Some \<lparr> has_assets = Some False, description = Some ''image'' \<rparr> \<rparr>"

definition assets_brief :: brief where
  "assets_brief =
     \<lparr> budget = Value 1000, campaign_duration_days = Value 30,
       creative_assets = Some \<lparr> has_assets = Some True, description = Some ''Image and VIDEO'' \<rparr> \<rparr>"

definition no_money_doc :: document where
  "no_money_doc =
     \<lparr> paragraphs = [''Media plan'', ''Campaign start: 2024-01-01''],
       tables = [[[''Platform''], [''Google'']]] \<rparr>"

definition unit_check :: "status \<Rightarrow> (unit, unit) validation_result" where
  \<comment> \<open>a check result with the given status\<close>
  "unit_check st = \<lparr> check_name = ''check'', status = st, expected = None, actual = None \<rparr>"

section \<open>Properties\<close>


subsection \<open>Section boundaries and currency zones\<close>

lemma first_index_Some_iff:
  "first_index P xs = Some k \<longleftrightarrow> k < length xs \<and> P (xs ! k) \<and> (\<forall>j<k. \<not> P (xs ! j))"
proof (induction xs arbitrary: k)
  case Nil
  then show ?case by simp
next
  case (Cons x xs)
  show ?case
  proof (cases "P x")
    case True
    then show ?thesis by (cases k) auto
  next
    case False
    show ?thesis
    proof (cases k)
      case 0
      with False show ?thesis by auto
    next
      case (Suc m)
      have "(\<forall>j<Suc m. \<not> P ((x # xs) ! j)) \<longleftrightarrow> (\<forall>j<m. \<not> P (xs ! j))"
        using False by (auto simp: less_Suc_eq_0_disj)
      with False Suc Cons.IH [of m] show ?thesis by auto
    qed
  qed
qed

lemma last_index_None_iff: "last_index P xs = None \<longleftrightarrow> (\<forall>x\<in>set xs. \<not> P x)"
  by (induction xs) (auto split: option.splits)

lemma last_index_Some_iff:
  "last_index P xs = Some i \<longleftrightarrow>
     i < length xs \<and> P (xs ! i) \<and> (\<forall>j. i < j \<and> j < length xs \<longrightarrow> \<not> P (xs ! j))"
proof (induction xs arbitrary: i)
  case Nil
  then show ?case by simp
next
  case (Cons x xs)
  show ?case
  proof (cases "last_index P xs")
    case None
    then have no: "\<And>j. j < length xs \<Longrightarrow> \<not> P (xs ! j)"
      by (simp add: last_index_None_iff)
    show ?thesis
    proof (cases i)
      case 0
      have "(\<forall>j. 0 < j \<and> j < Suc (length xs) \<longrightarrow> \<not> P ((x # xs) ! j))"
        using no by (auto simp: gr0_conv_Suc)
      with None 0 show ?thesis by auto
    next
      case (Suc m)
      with None no show ?thesis by auto
    qed
  next
    case (Some l)
    then have l: "l < length xs" "P (xs ! l)"
      using Cons.IH [of l] by auto
    show ?thesis
    proof (cases i)
      case 0
      have "\<not> (\<forall>j. 0 < j \<and> j < Suc (length xs) \<longrightarrow> \<not> P ((x # xs) ! j))"
        using l by (auto intro!: exI [of _ "Suc l"])
      with Some 0 show ?thesis by auto
    next
      case (Suc m)
      have "(\<forall>j. Suc m < j \<and> j < Suc (length xs) \<longrightarrow> \<not> P ((x # xs) ! j))
          \<longleftrightarrow> (\<forall>j. m < j \<and> j < length xs \<longrightarrow> \<not> P (xs ! j))"
        by (auto simp: less_Suc_eq_0_disj)
      with Some Suc Cons.IH [of m] show ?thesis by auto
    qed
  qed
qed

lemma first_pass_enumerate:
  "first_pass (enumerate k xs) s =
     ((case last_index strategy_heading (scanned xs) of
         None \<Rightarrow> s | Some j \<Rightarrow> Some (k + j)),
      map_option ((+) k) (first_index checklist_heading xs))"
proof (induction xs arbitrary: k s)
  case Nil
  then show ?case by (simp add: scanned_def)
next
  case (Cons x xs)
  show ?case
    by (cases "first_index checklist_heading xs")
       (auto simp: Cons.IH scanned_def Let_def strategy_heading_def [symmetric]
          checklist_heading_def [symmetric] split: option.splits)
qed

lemma find_boundaries_eq:
  "find_boundaries xs =
     (last_index strategy_heading (scanned xs),
      first_index checklist_heading xs)"
  by (cases "first_index checklist_heading xs")
     (simp_all add: find_boundaries_def first_pass_enumerate split: option.splits)

lemma scanned_nth: "i < length (scanned xs) \<Longrightarrow> scanned xs ! i = xs ! i"
  by (auto simp: scanned_def split: option.splits)

lemma second_pass_acc:
  "second_pass els sx cx ps acc =
     acc @ concat (map (\<lambda>(i, t). if should_process sx cx i then element_mentions els i t else []) ps)"
  by (induction ps arbitrary: acc) auto

lemma map_enumerate_nth:
  "map (\<lambda>(i, t). f i t) (enumerate 0 xs) = map (\<lambda>i. f i (xs ! i)) [0..<length xs]"
  by (rule nth_equalityI) (simp_all add: nth_enumerate_eq)

lemma concat_map_if:
  "concat (map (\<lambda>i. if P i then g i else []) is) = concat (map g (filter P is))"
  by (induction "is") auto

lemma should_process_iff:
  "should_process sx cx i \<longleftrightarrow>
     sx = None \<or> (\<exists>s. sx = Some s \<and> i < s) \<or> (\<exists>c. cx = Some c \<and> c \<le> i)"
  by (cases sx; cases cx) (auto simp: should_process_def)

text \<open>
  Claim C1. Take the linearized elements of a document and the boundaries detected on
  them. The currency extractor returns exactly the mentions of the processed positions,
  in order; a position \<open>i\<close> is processed if and only if the strategy index is absent,
  or \<open>i\<close> is strictly less than the strategy index, or the checklist index is present
  and \<open>i\<close> is at least the checklist index. So no position strictly between the
  strategy index and the checklist index is processed: whatever its text, it
  contributes no mention.
\<close>

theorem currency_zone_eligibility:
  assumes "find_boundaries (all_text_elements doc) = (sx, cx)"
  shows "extract_currency_amounts_from_text doc =
           concat (map (\<lambda>i. element_mentions (all_text_elements doc) i (all_text_elements doc ! i))
                    (processed_positions doc))
         \<and> (\<forall>i. i \<in> set (processed_positions doc) \<longleftrightarrow>
                i < length (all_text_elements doc)
                \<and> (sx = None \<or> (\<exists>s. sx = Some s \<and> i < s) \<or> (\<exists>c. cx = Some c \<and> c \<le> i)))
         \<and> (\<forall>s c i. sx = Some s \<and> cx = Some c \<and> s < i \<and> i < c
                \<longrightarrow> i \<notin> set (processed_positions doc))"
proof -
  let ?els = "all_text_elements doc"
  have pos: "processed_positions doc = filter (should_process sx cx) [0..<length ?els]"
    using assms by (simp add: processed_positions_def Let_def)
  have "extract_currency_amounts_from_text doc = second_pass ?els sx cx (enumerate 0 ?els) []"
    using assms by (simp add: extract_currency_amounts_from_text_def Let_def)
  also have "\<dots> = concat (map (\<lambda>i. if should_process sx cx i then element_mentions ?els i (?els ! i) else [])
                      [0..<length ?els])"
    by (simp add: second_pass_acc
          map_enumerate_nth [of "\<lambda>i t. if should_process sx cx i then element_mentions ?els i t else []"])
  also have "\<dots> = concat (map (\<lambda>i. element_mentions ?els i (?els ! i)) (processed_positions doc))"
    by (simp add: concat_map_if pos)
  finally have a: "extract_currency_amounts_from_text doc =
      concat (map (\<lambda>i. element_mentions ?els i (?els ! i)) (processed_positions doc))" .
  have b: "\<forall>i. i \<in> set (processed_positions doc) \<longleftrightarrow>
      i < length ?els \<and> (sx = None \<or> (\<exists>s. sx = Some s \<and> i < s) \<or> (\<exists>c. cx = Some c \<and> c \<le> i))"
    by (auto simp: pos should_process_iff)
  have c: "\<forall>s c i. sx = Some s \<and> cx = Some c \<and> s < i \<and> i < c \<longrightarrow> i \<notin> set (processed_positions doc)"
    by (auto simp: pos should_process_iff)
  from a b c show ?thesis by blast
qed

theorem currency_zone_eligibility_witness:
  "find_boundaries (all_text_elements plan_doc) = (Some 1, Some 3)
   \<and> 2 \<notin> set (processed_positions plan_doc)
   \<and> extract_currency_amounts_from_text plan_doc
       = concat (map (\<lambda>i. element_mentions (all_text_elements plan_doc) i
                           (all_text_elements plan_doc ! i)) [0, 3, 4, 5, 6, 7, 8])"
proof -
  have h: "find_boundaries (all_text_elements plan_doc) = (Some 1, Some 3)"
    by code_simp
  have p: "processed_positions plan_doc = [0, 3, 4, 5, 6, 7, 8]"
    by code_simp
  from currency_zone_eligibility [OF h] have
    "extract_currency_amounts_from_text plan_doc
       = concat (map (\<lambda>i. element_mentions (all_text_elements plan_doc) i
                           (all_text_elements plan_doc ! i)) (processed_positions plan_doc))"
    and "2 \<notin> set (processed_positions plan_doc)"
    by auto
  with h p show ?thesis by simp
qed

text \<open>
  Claim C2, as amended. Boundary detection is one scan: it sets the checklist index to
  the first element that is a creative checklist heading and stops there. The elements
  it has read (\<open>scanned\<close>) are those up to and including that heading, or all of
  them when there is none. The strategy index is the position of the last strategy
  explainer heading among the elements read: a later match overwrites an earlier one,
  and an element after the checklist heading is never examined.
\<close>

theorem boundary_detection:
  assumes "find_boundaries elements = (sx, cx)"
  shows "(\<forall>c. cx = Some c \<longleftrightarrow>
            c < length elements \<and> is_creative_checklist (lower (elements ! c))
            \<and> (\<forall>j<c. \<not> is_creative_checklist (lower (elements ! j))))
         \<and> scanned elements = (case cx of None \<Rightarrow> elements | Some c \<Rightarrow> take (Suc c) elements)
         \<and> (\<forall>s. sx = Some s \<longleftrightarrow>
              s < length (scanned elements) \<and> is_strategy_explainer (lower (elements ! s))
              \<and> (\<forall>j. s < j \<and> j < length (scanned elements)
                    \<longrightarrow> \<not> is_strategy_explainer (lower (elements ! j))))"
proof -
  from assms have sx: "sx = last_index strategy_heading (scanned elements)"
    and cx: "cx = first_index checklist_heading elements"
    by (simp_all add: find_boundaries_eq)
  have a: "\<forall>c. cx = Some c \<longleftrightarrow>
            c < length elements \<and> is_creative_checklist (lower (elements ! c))
            \<and> (\<forall>j<c. \<not> is_creative_checklist (lower (elements ! j)))"
    unfolding cx by (simp add: first_index_Some_iff checklist_heading_def)
  have b: "scanned elements = (case cx of None \<Rightarrow> elements | Some c \<Rightarrow> take (Suc c) elements)"
    by (simp add: scanned_def cx)
  have c: "\<forall>s. sx = Some s \<longleftrightarrow>
              s < length (scanned elements) \<and> is_strategy_explainer (lower (elements ! s))
              \<and> (\<forall>j. s < j \<and> j < length (scanned elements)
                    \<longrightarrow> \<not> is_strategy_explainer (lower (elements ! j)))"
    unfolding sx last_index_Some_iff by (auto simp: scanned_nth strategy_heading_def)
  from a b c show ?thesis by blast
qed

theorem boundary_detection_witness:
  "find_boundaries headings = (Some 1, Some 2)
   \<and> scanned headings = take 3 headings
   \<and> is_strategy_explainer (lower (headings ! 1))
   \<and> \<not> is_strategy_explainer (lower (headings ! 2))"
proof -
  have h: "find_boundaries headings = (Some 1, Some 2)"
    by code_simp
  have l: "length headings = 4"
    by (simp add: headings_def)
  from boundary_detection [OF h] have
    s: "scanned headings = take 3 headings"
    and i: "\<And>s. Some 1 = Some s \<longleftrightarrow>
         s < length (scanned headings) \<and> is_strategy_explainer (lower (headings ! s))
         \<and> (\<forall>j. s < j \<and> j < length (scanned headings)
               \<longrightarrow> \<not> is_strategy_explainer (lower (headings ! j)))"
    by (simp_all add: eval_nat_numeral)
  from i [of 1] have "is_strategy_explainer (lower (headings ! 1))"
    and "\<forall>j. 1 < j \<and> j < length (scanned headings) \<longrightarrow> \<not> is_strategy_explainer (lower (headings ! j))"
    by simp_all
  moreover have "length (scanned headings) = 3"
    by (simp add: s l)
  ultimately show ?thesis using h s by auto
qed

text \<open>
  The claim as the specification states it fails: in \<open>headings\<close> the first strategy
  explainer heading is at position 0 and the last at position 3, and the detected
  strategy index is 1.
\<close>

theorem boundary_detection_counterexample:
  "find_boundaries headings = (Some 1, Some 2)
   \<and> first_index strategy_heading headings = Some 0
   \<and> last_index strategy_heading headings = Some 3"
  by code_simp

subsection \<open>Campaign dates\<close>

lemma last_some_append:
  "last_some (xs @ ys) = (case last_some ys of Some v \<Rightarrow> Some v | None \<Rightarrow> last_some xs)"
  by (induction xs) (auto split: option.splits)

lemma keep_append: "keep old (xs @ ys) = keep (keep old xs) ys"
  by (simp add: keep_def last_some_append split: option.splits)

lemma apply_pattern_keep:
  "apply_pattern text pat (s, e) =
     (keep s (map fst (assignment text pat)), keep e (map snd (assignment text pat)))"
  by (cases pat) (simp add: keep_def split: option.splits)

lemma pattern_loop_keep:
  "pattern_loop text pats (s, e) =
     (keep s (map fst (concat (map (assignment text) pats))),
      keep e (map snd (concat (map (assignment text) pats))))"
proof (induction pats arbitrary: s e)
  case Nil
  then show ?case by (simp add: keep_def)
next
  case (Cons pat pats)
  then show ?case by (simp add: apply_pattern_keep keep_append)
qed

lemma paragraph_loop_keep:
  "paragraph_loop paras (s, e) =
     (keep s (map fst (assignments paras)), keep e (map snd (assignments paras)))"
proof (induction paras arbitrary: s e)
  case Nil
  then show ?case by (simp add: keep_def assignments_def)
next
  case (Cons para paras)
  have "assignments (para # paras) =
      concat (map (assignment (lower para)) date_patterns) @ assignments paras"
    by (simp add: assignments_def)
  then show ?case by (simp add: Cons.IH pattern_loop_keep keep_append)
qed

lemma date_pattern_roles:
  "map (\<lambda>(pattern, prog). (contains ''start'' pattern, contains ''end'' pattern)) date_patterns
     = [(True, False), (True, False), (False, True), (False, True), (False, False),
        (False, False)]"
  by code_simp

text \<open>
  Claim C7. The date extractor applies every date pattern to every paragraph, never
  stopping at a match: a match of a pattern whose text contains \<open>start\<close> assigns the
  start date, one whose text contains \<open>end\<close> the end date, and a two-group match
  both (\<open>assignments\<close> lists these assignments in scan order). The returned start
  date is the value of the last assignment to the start date in scan order, and
  likewise for the end date; it is \<open>None\<close> when no assignment was made. Of the six
  patterns, the first two are start patterns, the next two are end patterns and the
  last two are the two-group patterns.
\<close>

theorem last_date_assignment_wins:
  "extract_campaign_dates doc =
     (last_some (map fst (assignments (paragraphs doc))),
      last_some (map snd (assignments (paragraphs doc))))
   \<and> map (\<lambda>(pattern, prog). (contains ''start'' pattern, contains ''end'' pattern)) date_patterns
       = [(True, False), (True, False), (False, True), (False, True), (False, False),
          (False, False)]"
  using date_pattern_roles
  by (simp add: extract_campaign_dates_def paragraph_loop_keep keep_def split: option.splits)

theorem last_date_assignment_wins_witness:
  "assignments (paragraphs dates_doc) =
     [(Some ''2024-01-01'', None), (Some ''2024-02-01'', Some ''2024-02-28''),
      (Some ''2024-02-01'', Some ''2024-02-28''), (Some ''2025-01-01'', None)]
   \<and> extract_campaign_dates dates_doc = (Some ''2025-01-01'', Some ''2024-02-28'')"
proof -
  have a: "assignments (paragraphs dates_doc) =
     [(Some ''2024-01-01'', None), (Some ''2024-02-01'', Some ''2024-02-28''),
      (Some ''2024-02-01'', Some ''2024-02-28''), (Some ''2025-01-01'', None)]"
    by code_simp
  show ?thesis using last_date_assignment_wins [of dates_doc] by (simp add: a)
qed

subsection \<open>The duration check\<close>

lemma strptime_empty: "strptime [] = None"
  by code_simp

lemma scenario_b:
  "validate_duration brief30 (Some ''2024-01-01'') (Some ''2024-01-29'')
     = \<lparr> check_name = ''duration_check'', status = Pass, expected = Some 30, actual = Some 29 \<rparr>"
  by code_simp

lemma toordinal_next_day: "toordinal (y, m, Suc d) = toordinal (y, m, d) + 1"
  by simp

lemma days_before_month_Suc:
  "1 \<le> m \<Longrightarrow> days_before_month y (Suc m) = days_before_month y m + int (days_in_month y m)"
  by (simp add: days_before_month_def)

lemma toordinal_next_month:
  "1 \<le> m \<Longrightarrow> toordinal (y, Suc m, 1) = toordinal (y, m, days_in_month y m) + 1"
  by (simp add: days_before_month_Suc)

lemma days_before_month_12:
  "days_before_month y 12 + 31 = (if is_leap y then 366 else 365)"
proof -
  have "[1..<12] = [1, 2, 3, 4, 5, 6, 7, 8, 9, 10, 11 :: nat]"
    by (simp add: upt_rec)
  then show ?thesis
    by (simp add: days_before_month_def days_in_month_def)
qed

lemma div_step:
  fixes k d :: int
  assumes "0 < d"
  shows "k div d = (k - 1) div d + (if k mod d = 0 then 1 else 0)"
proof (cases "k mod d = 0")
  case True
  then have "k = d * (k div d)"
    by (metis add.right_neutral mult_div_mod_eq)
  then have "k - 1 = d * (k div d - 1) + (d - 1)"
    by (simp add: algebra_simps)
  from int_div_pos_eq [OF this] assms have "(k - 1) div d = k div d - 1"
    by simp
  with True show ?thesis by simp
next
  case False
  have r: "0 \<le> k mod d" "k mod d < d"
    using assms by simp_all
  with False have "0 \<le> k mod d - 1" "k mod d - 1 < d"
    by simp_all
  moreover have "k - 1 = d * (k div d) + (k mod d - 1)"
    by (simp add: algebra_simps)
  ultimately have "(k - 1) div d = k div d"
    using int_div_pos_eq [of "k - 1" d "k div d" "k mod d - 1"] by simp
  with False show ?thesis by simp
qed

lemma gregorian_step:
  fixes k :: int
  shows "k * 365 + k div 4 - k div 100 + k div 400 =
      (k - 1) * 365 + (k - 1) div 4 - (k - 1) div 100 + (k - 1) div 400
      + (if k mod 4 = 0 \<and> (k mod 100 \<noteq> 0 \<or> k mod 400 = 0) then 366 else 365)"
proof -
  have c400: "(100::int) dvd 400" and c100: "(4::int) dvd 100"
    by simp_all
  have d1: "k mod 100 = 0" if "k mod 400 = 0"
  proof -
    from that have "400 dvd k" by (simp only: dvd_eq_mod_eq_0)
    with c400 have "100 dvd k" by (rule dvd_trans)
    then show ?thesis by (simp only: dvd_eq_mod_eq_0)
  qed
  have d2: "k mod 4 = 0" if "k mod 100 = 0"
  proof -
    from that have "100 dvd k" by (simp only: dvd_eq_mod_eq_0)
    with c100 have "4 dvd k" by (rule dvd_trans)
    then show ?thesis by (simp only: dvd_eq_mod_eq_0)
  qed
  define a where "a = (k - 1) div 4"
  define b where "b = (k - 1) div 100"
  define c where "c = (k - 1) div 400"
  have s4: "k div 4 = a + (if k mod 4 = 0 then 1 else 0)"
    unfolding a_def by (rule div_step) simp
  have s100: "k div 100 = b + (if k mod 100 = 0 then 1 else 0)"
    unfolding b_def by (rule div_step) simp
  have s400: "k div 400 = c + (if k mod 400 = 0 then 1 else 0)"
    unfolding c_def by (rule div_step) simp
  have e: "k * 365 = (k - 1) * 365 + 365"
    by (simp add: algebra_simps)
  have "k * 365 + k div 4 - k div 100 + k div 400 =
      (k - 1) * 365 + a - b + c
      + (if k mod 4 = 0 \<and> (k mod 100 \<noteq> 0 \<or> k mod 400 = 0) then 366 else 365)"
    using d1 d2 by (simp only: s4 s100 s400 e split: if_splits) linarith
  then show ?thesis
    by (simp only: a_def b_def c_def)
qed

lemma is_leap_int:
  "is_leap y \<longleftrightarrow> int y mod 4 = 0 \<and> (int y mod 100 \<noteq> 0 \<or> int y mod 400 = 0)"
proof -
  have m: "\<And>n. (y mod n = 0) = (int y mod int n = 0)"
    by (metis of_nat_eq_0_iff of_nat_mod)
  show ?thesis
    unfolding is_leap_def using m [of 4] m [of 100] m [of 400] by simp
qed

lemma days_before_year_Suc:
  "days_before_year (Suc y) = days_before_year y + (if is_leap y then 366 else 365)"
proof -
  have n: "int (Suc y) - 1 = int y"
    by simp
  show ?thesis
    unfolding days_before_year_def Let_def n is_leap_int
    by (rule gregorian_step)
qed

lemma toordinal_next_year:
  "toordinal (Suc y, 1, 1) = toordinal (y, 12, 31) + 1"
proof -
  have "days_before_month (Suc y) 1 = 0"
    by (simp add: days_before_month_def)
  then show ?thesis
    using days_before_month_12 [of y] by (simp add: days_before_year_Suc)
qed

lemma toordinal_first: "toordinal (1, 1, 1) = 1"
  by code_simp

lemma day_count_examples:
  "actual (validate_duration brief30 (Some ''2024-01-15'') (Some ''2024-02-13'')) = Some 30"
  "actual (validate_duration brief30 (Some ''2023-12-15'') (Some ''2024-01-13'')) = Some 30"
  "actual (validate_duration brief30 (Some ''2024-02-15'') (Some ''2024-03-15'')) = Some 30"
  "actual (validate_duration brief30 (Some ''2023-02-15'') (Some ''2023-03-15'')) = Some 29"
  "actual (validate_duration brief30 (Some ''1900-01-01'') (Some ''1900-12-31'')) = Some 365"
  "actual (validate_duration brief30 (Some ''2000-01-01'') (Some ''2000-12-31'')) = Some 366"
  by code_simp+

text \<open>
  Claim C6. If the start date or the end date is missing, the duration check returns a
  warning. Otherwise, when both texts are dates and the brief gives
  \<open>campaign_duration_days = n\<close>, the actual duration is the inclusive day count (the
  days from start to end, plus 1) and the check passes exactly when it differs from
  \<open>n\<close> by at most 1, and fails otherwise; it also fails when a date text is present
  but is not a date. From 2024-01-01 to 2024-01-29 against \<open>n = 30\<close> it passes with
  the actual duration 29.

  The day count is that of the calendar: day 1 is 0001-01-01, the next day of a month,
  the first day of the next month and the first day of the next year each count one
  more, and the count runs across months, years and leap days, as from 2024-01-15 to
  2024-02-13 (30 days), from 2023-12-15 to 2024-01-13 (30 days), from 2024-02-15 to
  2024-03-15 (30 days, a leap year), from 2023-02-15 to 2023-03-15 (29 days), and over
  the years 1900 (365 days) and 2000 (366 days).
\<close>

theorem duration_check:
  "(falsy start_date \<or> falsy end_date
      \<longrightarrow> status (validate_duration json_brief start_date end_date) = Warning)
   \<and> (\<forall>s e d1 d2 n.
         start_date = Some s \<and> end_date = Some e \<and> strptime s = Some d1 \<and> strptime e = Some d2
         \<and> campaign_duration_days json_brief = Value n
         \<longrightarrow> actual (validate_duration json_brief start_date end_date)
               = Some (toordinal d2 - toordinal d1 + 1)
             \<and> expected (validate_duration json_brief start_date end_date) = Some n
             \<and> status (validate_duration json_brief start_date end_date)
               = (if \<bar>(toordinal d2 - toordinal d1 + 1) - n\<bar> \<le> 1 then Pass else Fail))
   \<and> (\<forall>s e. start_date = Some s \<and> end_date = Some e \<and> s \<noteq> [] \<and> e \<noteq> []
         \<and> (strptime s = None \<or> strptime e = None)
         \<longrightarrow> status (validate_duration json_brief start_date end_date) = Fail)
   \<and> validate_duration brief30 (Some ''2024-01-01'') (Some ''2024-01-29'')
       = \<lparr> check_name = ''duration_check'', status = Pass, expected = Some 30, actual = Some 29 \<rparr>
   \<and> toordinal (1, 1, 1) = 1
   \<and> (\<forall>y m d. toordinal (y, m, Suc d) = toordinal (y, m, d) + 1)
   \<and> (\<forall>y m. 1 \<le> m \<longrightarrow> toordinal (y, Suc m, 1) = toordinal (y, m, days_in_month y m) + 1)
   \<and> (\<forall>y. toordinal (Suc y, 1, 1) = toordinal (y, 12, 31) + 1)
   \<and> actual (validate_duration brief30 (Some ''2024-01-15'') (Some ''2024-02-13'')) = Some 30
   \<and> actual (validate_duration brief30 (Some ''2023-12-15'') (Some ''2024-01-13'')) = Some 30
   \<and> actual (validate_duration brief30 (Some ''2024-02-15'') (Some ''2024-03-15'')) = Some 30
   \<and> actual (validate_duration brief30 (Some ''2023-02-15'') (Some ''2023-03-15'')) = Some 29
   \<and> actual (validate_duration brief30 (Some ''1900-01-01'') (Some ''1900-12-31'')) = Some 365
   \<and> actual (validate_duration brief30 (Some ''2000-01-01'') (Some ''2000-12-31'')) = Some 366"
proof -
  have t: "toordinal (1, 1, 1) = 1
     \<and> (\<forall>y m d. toordinal (y, m, Suc d) = toordinal (y, m, d) + 1)
     \<and> (\<forall>y m. 1 \<le> m \<longrightarrow> toordinal (y, Suc m, 1) = toordinal (y, m, days_in_month y m) + 1)
     \<and> (\<forall>y. toordinal (Suc y, 1, 1) = toordinal (y, 12, 31) + 1)"
    using toordinal_first toordinal_next_day toordinal_next_month toordinal_next_year by blast
  have c: "\<forall>s e. start_date = Some s \<and> end_date = Some e \<and> s \<noteq> [] \<and> e \<noteq> []
         \<and> (strptime s = None \<or> strptime e = None)
         \<longrightarrow> status (validate_duration json_brief start_date end_date) = Fail"
    by (auto simp: validate_duration_def falsy_def error_result_def split: option.splits)
  have a: "falsy start_date \<or> falsy end_date
      \<longrightarrow> status (validate_duration json_brief start_date end_date) = Warning"
    by (simp add: validate_duration_def)
  have b: "\<forall>s e d1 d2 n.
         start_date = Some s \<and> end_date = Some e \<and> strptime s = Some d1 \<and> strptime e = Some d2
         \<and> campaign_duration_days json_brief = Value n
         \<longrightarrow> actual (validate_duration json_brief start_date end_date)
               = Some (toordinal d2 - toordinal d1 + 1)
             \<and> expected (validate_duration json_brief start_date end_date) = Some n
             \<and> status (validate_duration json_brief start_date end_date)
               = (if \<bar>(toordinal d2 - toordinal d1 + 1) - n\<bar> \<le> 1 then Pass else Fail)"
  proof (intro allI impI)
    fix s e d1 d2 n
    assume h: "start_date = Some s \<and> end_date = Some e \<and> strptime s = Some d1
        \<and> strptime e = Some d2 \<and> campaign_duration_days json_brief = Value n"
    then have "s \<noteq> []" "e \<noteq> []"
      using strptime_empty by auto
    with h have nf: "\<not> falsy start_date" "\<not> falsy end_date"
      by (simp_all add: falsy_def)
    show "actual (validate_duration json_brief start_date end_date)
               = Some (toordinal d2 - toordinal d1 + 1)
             \<and> expected (validate_duration json_brief start_date end_date) = Some n
             \<and> status (validate_duration json_brief start_date end_date)
               = (if \<bar>(toordinal d2 - toordinal d1 + 1) - n\<bar> \<le> 1 then Pass else Fail)"
      using h nf
      by (simp add: validate_duration_def Let_def DEFAULT_DURATION_TOLERANCE_DAYS_def)
  qed
  from t have t1: "toordinal (1, 1, 1) = 1"
    and t2: "\<forall>y m d. toordinal (y, m, Suc d) = toordinal (y, m, d) + 1"
    and t3: "\<forall>y m. 1 \<le> m \<longrightarrow> toordinal (y, Suc m, 1) = toordinal (y, m, days_in_month y m) + 1"
    and t4: "\<forall>y. toordinal (Suc y, 1, 1) = toordinal (y, 12, 31) + 1"
    by blast+
  show ?thesis
    by (intro conjI) (rule a b c scenario_b t1 t2 t3 t4 day_count_examples)+
qed

theorem duration_check_witness:
  "status (validate_duration brief30 None (Some ''2024-01-29'')) = Warning
   \<and> status (validate_duration brief30 (Some ''2024-01-01'') (Some ''2024-01-29'')) = Pass
   \<and> actual (validate_duration brief30 (Some ''2024-01-01'') (Some ''2024-01-29'')) = Some 29
   \<and> status (validate_duration brief30 (Some ''2024-01-01'') (Some ''2024-02-15'')) = Fail
   \<and> actual (validate_duration brief30 (Some ''2024-01-01'') (Some ''2024-02-15'')) = Some 46
   \<and> status (validate_duration brief30 (Some ''2023-12-15'') (Some ''2024-01-13'')) = Pass
   \<and> actual (validate_duration brief30 (Some ''2023-12-15'') (Some ''2024-01-13'')) = Some 30
   \<and> toordinal (2024, 1, 1) = 738886
   \<and> toordinal (2023, 12, 15) = 738869
   \<and> toordinal (2024, 1, 13) = 738898"
proof -
  have p: "strptime ''2024-01-01'' = Some (2024, 1, 1)"
    "strptime ''2024-01-29'' = Some (2024, 1, 29)"
    "strptime ''2024-02-15'' = Some (2024, 2, 15)"
    "strptime ''2023-12-15'' = Some (2023, 12, 15)"
    "strptime ''2024-01-13'' = Some (2024, 1, 13)"
    by code_simp+
  have t: "toordinal (2024, 1, 1) = 738886" "toordinal (2024, 1, 29) = 738914"
    "toordinal (2024, 2, 15) = 738931" "toordinal (2023, 12, 15) = 738869"
    "toordinal (2024, 1, 13) = 738898"
    by code_simp+
  have n: "campaign_duration_days brief30 = Value 30"
    by (simp add: brief30_def)
  have w: "status (validate_duration brief30 None (Some ''2024-01-29'')) = Warning"
    using duration_check [of None "Some ''2024-01-29''" brief30] by (simp add: falsy_def)
  have a: "status (validate_duration brief30 (Some ''2024-01-01'') (Some ''2024-01-29'')) = Pass
    \<and> actual (validate_duration brief30 (Some ''2024-01-01'') (Some ''2024-01-29'')) = Some 29"
    using duration_check [of "Some ''2024-01-01''" "Some ''2024-01-29''" brief30] p n t by simp
  have f: "status (validate_duration brief30 (Some ''2024-01-01'') (Some ''2024-02-15'')) = Fail
    \<and> actual (validate_duration brief30 (Some ''2024-01-01'') (Some ''2024-02-15'')) = Some 46"
    using duration_check [of "Some ''2024-01-01''" "Some ''2024-02-15''" brief30] p n t by simp
  have y: "status (validate_duration brief30 (Some ''2023-12-15'') (Some ''2024-01-13'')) = Pass
    \<and> actual (validate_duration brief30 (Some ''2023-12-15'') (Some ''2024-01-13'')) = Some 30"
    using duration_check [of "Some ''2023-12-15''" "Some ''2024-01-13''" brief30] p n t by simp
  from w a f y t show ?thesis by simp
qed

subsection \<open>The creative checklist\<close>







subsection \<open>The creative assets check\<close>

lemma asset_types_of_set:
  "set (asset_types_of d) =
     {t \<in> {''image'', ''video'', ''banner'', ''carousel''}. contains t d}"
  by (auto simp: asset_types_of_def)

lemma missing_types_empty:
  "missing_types_of ts cl = [] \<longleftrightarrow> (\<forall>t\<in>set ts. contains t (checklist_text cl))"
  by (simp add: missing_types_of_def filter_empty_conv)

text \<open>
  Claim C9, as amended. The creative assets check returns only pass or warning. It
  returns pass exactly when either the brief declares no assets and the checklist is
  empty, or the brief declares assets, the checklist is not empty and every asset type
  inferred from the description occurs as a substring of the joined lower-cased
  checklist text. The inferred asset types are those of image, video, banner and
  carousel that occur as substrings of the lower-cased description.
\<close>

theorem creative_assets_check:
  "(status (validate_creative_assets json_brief creative_checklist) = Pass
      \<or> status (validate_creative_assets json_brief creative_checklist) = Warning)
   \<and> (status (validate_creative_assets json_brief creative_checklist) = Pass \<longleftrightarrow>
        (\<not> brief_has_assets json_brief \<and> creative_checklist = [])
        \<or> (brief_has_assets json_brief \<and> creative_checklist \<noteq> []
            \<and> (\<forall>t\<in>set (asset_types_of (brief_description json_brief)).
                  contains t (checklist_text creative_checklist))))
   \<and> set (asset_types_of (brief_description json_brief))
        = {t \<in> {''image'', ''video'', ''banner'', ''carousel''}.
             contains t (brief_description json_brief)}"
  by (simp add: validate_creative_assets_def Let_def missing_types_empty asset_types_of_set)

theorem creative_assets_check_witness:
  "status (validate_creative_assets assets_brief [''Image 1080x1080'', ''video 15s'']) = Pass
   \<and> status (validate_creative_assets no_assets_brief []) = Pass"
proof -
  have h: "brief_has_assets assets_brief" "\<not> brief_has_assets no_assets_brief"
    by code_simp+
  have "asset_types_of (brief_description assets_brief) = [''image'', ''video'']"
    by code_simp
  moreover have "contains ''image'' (checklist_text [''Image 1080x1080'', ''video 15s''])"
    "contains ''video'' (checklist_text [''Image 1080x1080'', ''video 15s''])"
    by code_simp+
  ultimately have c: "\<forall>t\<in>set (asset_types_of (brief_description assets_brief)).
      contains t (checklist_text [''Image 1080x1080'', ''video 15s''])"
    by simp
  from creative_assets_check [of assets_brief "[''Image 1080x1080'', ''video 15s'']"] h c
  have "status (validate_creative_assets assets_brief [''Image 1080x1080'', ''video 15s'']) = Pass"
    by simp
  moreover from creative_assets_check [of no_assets_brief "[]"] h
  have "status (validate_creative_assets no_assets_brief []) = Pass"
    by simp
  ultimately show ?thesis by simp
qed

text \<open>
  The claim as the specification states it fails: for a brief that declares no assets,
  a checklist that covers every inferred asset type still gives a warning.
\<close>

theorem creative_assets_check_counterexample:
  "status (validate_creative_assets no_assets_brief [''image 1080x1080'']) = Warning
   \<and> asset_types_of (brief_description no_assets_brief) = [''image'']
   \<and> contains ''image'' (checklist_text [''image 1080x1080''])"
  by code_simp

subsection \<open>The channel consistency check\<close>

lemma card_inter_eq:
  assumes "finite A" "finite B"
  shows "card (A \<inter> B) = card A \<and> card A = card B \<longleftrightarrow> A = B"
proof
  assume h: "card (A \<inter> B) = card A \<and> card A = card B"
  have "A \<inter> B = A"
    using assms h by (intro card_subset_eq) auto
  moreover have "A \<inter> B = B"
    using assms h by (intro card_subset_eq) auto
  ultimately show "A = B" by simp
next
  assume "A = B"
  then show "card (A \<inter> B) = card A \<and> card A = card B" by simp
qed

lemma channel_status:
  "plan_channels \<noteq> [] \<Longrightarrow> strategy_channels \<noteq> [] \<Longrightarrow>
     status (validate_channel_consistency plan_channels strategy_channels) =
       (if set (map normalize_channel_name plan_channels)
             = set (map normalize_channel_name strategy_channels) then Pass else Fail)"
  using card_inter_eq [of "set (map normalize_channel_name plan_channels)"
      "set (map normalize_channel_name strategy_channels)"]
  by (simp add: validate_channel_consistency_def Let_def)

lemma normalize_examples:
  "normalize_channel_name ''facebook'' = ''meta (facebook)''"
  "normalize_channel_name ''meta (fb)'' = ''meta (facebook)''"
  by code_simp+

text \<open>
  Claim C3, as amended. For non-empty lists of plan channels and strategy channels, the
  channel consistency check returns pass exactly when the sets of normalized channel
  names are equal, and fail otherwise. The numbers of channels before normalization
  take no part in the status: with equal normalized sets and lists of different
  lengths the check returns pass.
\<close>

theorem channel_consistency_check:
  assumes "plan_channels \<noteq> []" and "strategy_channels \<noteq> []"
  shows "(status (validate_channel_consistency plan_channels strategy_channels) = Pass \<longleftrightarrow>
            set (map normalize_channel_name plan_channels)
              = set (map normalize_channel_name strategy_channels))
         \<and> (status (validate_channel_consistency plan_channels strategy_channels) = Pass
             \<or> status (validate_channel_consistency plan_channels strategy_channels) = Fail)"
  using assms by (simp add: channel_status)

theorem channel_consistency_check_witness:
  "status (validate_channel_consistency [''facebook'', ''meta (fb)''] [''facebook'']) = Pass"
proof -
  have "set (map normalize_channel_name [''facebook'', ''meta (fb)''])
      = set (map normalize_channel_name [''facebook''])"
    by (simp add: normalize_examples)
  with channel_consistency_check [of "[''facebook'', ''meta (fb)'']" "[''facebook'']"]
  show ?thesis by simp
qed

text \<open>
  The claim as the specification states it fails: two plan channels that normalize to
  the one strategy channel give pass, with two channels on one side and one on the
  other.
\<close>

theorem channel_consistency_check_counterexample:
  "status (validate_channel_consistency [''facebook'', ''meta (fb)''] [''facebook'']) = Pass
   \<and> set (map normalize_channel_name [''facebook'', ''meta (fb)''])
       = set (map normalize_channel_name [''facebook''])
   \<and> length [''facebook'', ''meta (fb)''] = 2 \<and> length [''facebook''] = 1"
proof -
  have "set (map normalize_channel_name [''facebook'', ''meta (fb)''])
      = set (map normalize_channel_name [''facebook''])"
    by (simp add: normalize_examples)
  then show ?thesis by (simp add: channel_status)
qed

subsection \<open>The budget check\<close>

lemma budget_no_mentions:
  "extract_currency_amounts_from_text doc = [] \<Longrightarrow>
     status (validate_budget_from_text tolerance json_brief doc) = Fail"
  by (cases "budget json_brief") (simp_all add: validate_budget_from_text_def error_result_def)

lemma no_money: "extract_currency_amounts_from_text no_money_doc = []"
  by code_simp

lemma budget_warning_iff:
  "status (validate_budget_from_text tolerance json_brief doc) = Warning \<longleftrightarrow>
     budget json_brief \<noteq> Invalid
     \<and> extract_currency_amounts_from_text doc \<noteq> []
     \<and> (\<forall>m\<in>set (extract_currency_amounts_from_text doc).
           \<not> in_budget_range (case budget json_brief of Value v \<Rightarrow> v | _ \<Rightarrow> 0) m)"
proof -
  have f: "\<And>P xs. (filter P xs = []) = (\<forall>x\<in>set xs. \<not> P x)"
    by (simp add: filter_empty_conv)
  show ?thesis
    by (cases "budget json_brief")
       (auto simp: validate_budget_from_text_def error_result_def Let_def f)
qed

text \<open>
  Claim C4, as amended. If the currency extractor finds no currency mention at all in
  the document, the budget check returns the status fail, for every brief and every
  tolerance. It returns a warning exactly when the budget of the brief is numeric,
  the extractor finds mentions, and no mention has an amount between 100 and twice
  the expected budget.
\<close>

theorem budget_without_mentions:
  "(extract_currency_amounts_from_text doc = []
      \<longrightarrow> status (validate_budget_from_text tolerance json_brief doc) = Fail)
   \<and> (status (validate_budget_from_text tolerance json_brief doc) = Warning \<longleftrightarrow>
        budget json_brief \<noteq> Invalid
        \<and> extract_currency_amounts_from_text doc \<noteq> []
        \<and> (\<forall>m\<in>set (extract_currency_amounts_from_text doc).
              \<not> in_budget_range (case budget json_brief of Value v \<Rightarrow> v | _ \<Rightarrow> 0) m))"
  using budget_no_mentions [of doc tolerance json_brief]
    budget_warning_iff [of tolerance json_brief doc]
  by blast

theorem budget_without_mentions_witness:
  "extract_currency_amounts_from_text no_money_doc = []
   \<and> status (validate_budget_from_text DEFAULT_BUDGET_TOLERANCE brief30 no_money_doc) = Fail"
  using budget_without_mentions [where doc = no_money_doc and tolerance = DEFAULT_BUDGET_TOLERANCE
      and json_brief = brief30] no_money
  by simp

text \<open>
  The claim as the specification states it fails: a document without any currency
  mention gives fail, not warning.
\<close>

theorem budget_without_mentions_counterexample:
  "extract_currency_amounts_from_text no_money_doc = []
   \<and> status (validate_budget_from_text DEFAULT_BUDGET_TOLERANCE brief30 no_money_doc) = Fail"
  using no_money by (simp add: budget_no_mentions)

subsection \<open>The overall status\<close>

lemma overall_status_cases:
  "overall_status checks =
     (if \<exists>c\<in>set checks. status c = Fail then Fail
      else if \<exists>c\<in>set checks. status c = Warning then Warning
      else Pass)"
proof -
  have "\<And>st. st \<in> set (map status checks) \<longleftrightarrow> (\<exists>c\<in>set checks. status c = st)"
    by auto
  then show ?thesis
    unfolding overall_status_def Let_def by presburger
qed

lemma overall_status_skip:
  "overall_status (filter (\<lambda>c. status c \<noteq> Skip) checks) = overall_status checks"
proof -
  have "\<And>st. st \<noteq> Skip \<Longrightarrow>
      (\<exists>c\<in>set (filter (\<lambda>c. status c \<noteq> Skip) checks). status c = st)
        \<longleftrightarrow> (\<exists>c\<in>set checks. status c = st)"
    by auto
  then show ?thesis
    by (simp add: overall_status_cases)
qed

text \<open>
  Claim C5. The overall status of a list of check results is fail if some check
  failed, else warning if some check warned, else pass. A skipped check never raises
  it: removing the skipped checks does not change the overall status, and when every
  check passed or was skipped the overall status is pass.
\<close>

theorem overall_status_escalation:
  "overall_status checks =
     (if \<exists>c\<in>set checks. status c = Fail then Fail
      else if \<exists>c\<in>set checks. status c = Warning then Warning
      else Pass)
   \<and> overall_status (filter (\<lambda>c. status c \<noteq> Skip) checks) = overall_status checks
   \<and> ((\<forall>c\<in>set checks. status c = Pass \<or> status c = Skip) \<longrightarrow> overall_status checks = Pass)"
proof -
  have "(\<forall>c\<in>set checks. status c = Pass \<or> status c = Skip) \<longrightarrow> overall_status checks = Pass"
  proof
    assume h: "\<forall>c\<in>set checks. status c = Pass \<or> status c = Skip"
    have "\<not> (\<exists>c\<in>set checks. status c = Fail)" "\<not> (\<exists>c\<in>set checks. status c = Warning)"
      using h by force+
    then show "overall_status checks = Pass"
      by (simp add: overall_status_cases)
  qed
  with overall_status_cases [of checks] overall_status_skip [of checks] show ?thesis
    by blast
qed

theorem overall_status_escalation_witness:
  "overall_status [unit_check Pass, unit_check Pass, unit_check Pass, unit_check Pass,
                   unit_check Skip] = Pass
   \<and> overall_status [unit_check Pass, unit_check Warning, unit_check Fail, unit_check Skip] = Fail"
proof -
  have "\<forall>c\<in>set [unit_check Pass, unit_check Pass, unit_check Pass, unit_check Pass,
      unit_check Skip]. status c = Pass \<or> status c = Skip"
    by (simp add: unit_check_def)
  with overall_status_escalation [of "[unit_check Pass, unit_check Pass, unit_check Pass,
      unit_check Pass, unit_check Skip]"]
  have "overall_status [unit_check Pass, unit_check Pass, unit_check Pass, unit_check Pass,
                   unit_check Skip] = Pass"
    by blast
  moreover have "overall_status [unit_check Pass, unit_check Warning, unit_check Fail,
      unit_check Skip] = Fail"
    using overall_status_escalation [of "[unit_check Pass, unit_check Warning, unit_check Fail,
      unit_check Skip]"]
    by (simp add: unit_check_def)
  ultimately show ?thesis by simp
qed

subsection \<open>Channel name normalization\<close>

lemma is_space_lower_char: "is_space (lower_char c) = is_space c"
  by (auto simp: is_space_def lower_char_def isupper_def)

lemma lower_char_idem: "lower_char (lower_char c) = lower_char c"
  by (auto simp: lower_char_def isupper_def)

lemma lower_idem: "lower (lower s) = lower s"
  by (simp add: lower_def lower_char_idem)

lemma lower_dropWhile:
  "dropWhile is_space (map lower_char xs) = map lower_char (dropWhile is_space xs)"
proof -
  have "is_space \<circ> lower_char = is_space"
    by (rule ext) (simp add: is_space_lower_char)
  then show ?thesis
    by (simp add: dropWhile_map)
qed

lemma lower_strip: "lower (strip s) = strip (lower s)"
  by (simp add: lower_def strip_def rev_map lower_dropWhile)

lemma dropWhile_id: "xs = [] \<or> \<not> P (hd xs) \<Longrightarrow> dropWhile P xs = xs"
  by (cases xs) auto

lemma rev_dropWhile_rev_hd:
  assumes "xs \<noteq> []" and "\<not> P (hd xs)"
  shows "rev (dropWhile Q (rev xs)) = [] \<or> \<not> P (hd (rev (dropWhile Q (rev xs))))"
proof (cases "dropWhile Q (rev xs) = []")
  case True
  then show ?thesis by simp
next
  case False
  have "rev (takeWhile Q (rev xs) @ dropWhile Q (rev xs)) = rev (rev xs)"
    by (simp only: takeWhile_dropWhile_id)
  then have "xs = rev (dropWhile Q (rev xs)) @ rev (takeWhile Q (rev xs))"
    by (simp only: rev_append rev_rev_ident)
  then have "hd xs = hd (rev (dropWhile Q (rev xs)) @ rev (takeWhile Q (rev xs)))"
    by (rule arg_cong)
  with False have "hd xs = hd (rev (dropWhile Q (rev xs)))"
    by simp
  with assms show ?thesis by simp
qed

lemma strip_idem: "strip (strip s) = strip s"
proof -
  define a where "a = dropWhile is_space s"
  define b where "b = rev (dropWhile is_space (rev a))"
  have "a = [] \<or> \<not> is_space (hd a)"
    unfolding a_def by (metis hd_dropWhile)
  then have "b = [] \<or> \<not> is_space (hd b)"
  proof
    assume "a = []"
    then show ?thesis by (simp add: b_def)
  next
    assume n: "\<not> is_space (hd a)"
    show ?thesis
    proof (cases "a = []")
      case True
      then show ?thesis by (simp add: b_def)
    next
      case False
      from rev_dropWhile_rev_hd [where xs = a and P = is_space and Q = is_space, OF False n]
      show ?thesis
        by (simp add: b_def)
    qed
  qed
  then have 1: "dropWhile is_space b = b"
    by (rule dropWhile_id)
  have 2: "dropWhile is_space (rev b) = rev b"
    by (simp add: b_def dropWhile_idem)
  have "strip s = b"
    by (simp add: strip_def a_def b_def)
  moreover have "strip b = b"
    by (simp add: strip_def 1 2)
  ultimately show ?thesis by simp
qed

lemma strip_lower_fix: "strip (lower (strip (lower s))) = strip (lower s)"
  by (simp add: lower_strip lower_idem strip_idem)

lemma canonical_ascii:
  "list_all (\<lambda>(k, v). ascii_text v \<and> strip (lower v) = v
      \<and> (map_of CHANNEL_NORMALIZATIONS v = None \<or> map_of CHANNEL_NORMALIZATIONS v = Some v))
     CHANNEL_NORMALIZATIONS"
  by code_simp

lemma ascii_text_lower: "ascii_text s \<Longrightarrow> ascii_text (lower s)"
  by (induction s) (auto simp: ascii_text_def lower_def lower_char_def isupper_def)

lemma normalize_with_idem:
  assumes "str_laws lower_fn strip_fn"
  shows "normalize_with lower_fn strip_fn (normalize_with lower_fn strip_fn s)
       = normalize_with lower_fn strip_fn s"
proof -
  from assms have l1: "\<And>s. lower_fn (lower_fn s) = lower_fn s"
    and l2: "\<And>s. strip_fn (strip_fn s) = strip_fn s"
    and l3: "\<And>s. lower_fn (strip_fn s) = strip_fn (lower_fn s)"
    and l4: "\<And>s. ascii_text s \<Longrightarrow> lower_fn s = lower s \<and> strip_fn s = strip s"
    by (simp_all add: str_laws_def)
  let ?t = "strip_fn (lower_fn s)"
  have fixed: "strip_fn (lower_fn ?t) = ?t"
    by (simp add: l1 l2 l3)
  show ?thesis
  proof (cases "map_of CHANNEL_NORMALIZATIONS ?t")
    case None
    then show ?thesis by (simp add: normalize_with_def fixed)
  next
    case (Some v)
    then have "(?t, v) \<in> set CHANNEL_NORMALIZATIONS"
      by (rule map_of_SomeD)
    with canonical_ascii have a: "ascii_text v" and f: "strip (lower v) = v"
      and m: "map_of CHANNEL_NORMALIZATIONS v = None \<or> map_of CHANNEL_NORMALIZATIONS v = Some v"
      by (auto simp: list_all_iff)
    from a have "lower_fn v = lower v" by (simp add: l4)
    moreover from a have "strip_fn (lower v) = strip (lower v)"
      by (simp add: l4 ascii_text_lower)
    ultimately have "strip_fn (lower_fn v) = v" using f by simp
    with Some m show ?thesis by (auto simp: normalize_with_def)
  qed
qed

lemma str_laws_ascii: "str_laws lower strip"
  by (simp add: str_laws_def lower_idem strip_idem lower_strip)

lemma normalize_channel_name_with: "normalize_channel_name = normalize_with lower strip"
  by (rule ext) (simp add: normalize_channel_name_def normalize_with_def)

text \<open>
  Claim C10. Normalizing a channel name twice gives the same as normalizing it once,
  for every text and for every pair of lower-casing and trimming functions that obey
  \<open>str_laws\<close>, as Python's do; the ASCII functions \<open>lower\<close> and \<open>strip\<close> obey
  them, so it holds of \<open>normalize_channel_name\<close>. Every canonical value of the
  normalization table is lower-cased and trimmed already, and is either not a key of
  the table or a key that maps to itself.
\<close>

theorem normalize_channel_name_idempotent:
  "(str_laws lower_fn strip_fn \<longrightarrow>
      normalize_with lower_fn strip_fn (normalize_with lower_fn strip_fn s)
        = normalize_with lower_fn strip_fn s
      \<and> (\<forall>(k, v)\<in>set CHANNEL_NORMALIZATIONS. strip_fn (lower_fn v) = v))
   \<and> (\<forall>(k, v)\<in>set CHANNEL_NORMALIZATIONS.
         map_of CHANNEL_NORMALIZATIONS v = None \<or> map_of CHANNEL_NORMALIZATIONS v = Some v)
   \<and> str_laws lower strip
   \<and> normalize_channel_name = normalize_with lower strip
   \<and> normalize_channel_name (normalize_channel_name s) = normalize_channel_name s"
proof -
  have c: "\<forall>(k, v)\<in>set CHANNEL_NORMALIZATIONS. ascii_text v \<and> strip (lower v) = v
      \<and> (map_of CHANNEL_NORMALIZATIONS v = None \<or> map_of CHANNEL_NORMALIZATIONS v = Some v)"
    using canonical_ascii by (simp add: list_all_iff)
  have v: "\<forall>(k, v)\<in>set CHANNEL_NORMALIZATIONS. strip_fn (lower_fn v) = v"
    if "str_laws lower_fn strip_fn"
  proof -
    from that have l4: "\<And>s. ascii_text s \<Longrightarrow> lower_fn s = lower s \<and> strip_fn s = strip s"
      by (simp add: str_laws_def)
    show ?thesis
    proof (clarify)
      fix k w
      assume "(k, w) \<in> set CHANNEL_NORMALIZATIONS"
      with c have a: "ascii_text w" and f: "strip (lower w) = w"
        by auto
      from a have "lower_fn w = lower w" by (simp add: l4)
      moreover from a have "strip_fn (lower w) = strip (lower w)"
        by (simp add: l4 ascii_text_lower)
      ultimately show "strip_fn (lower_fn w) = w" using f by simp
    qed
  qed
  have m: "\<forall>(k, v)\<in>set CHANNEL_NORMALIZATIONS.
      map_of CHANNEL_NORMALIZATIONS v = None \<or> map_of CHANNEL_NORMALIZATIONS v = Some v"
    using c by auto
  have i: "normalize_channel_name (normalize_channel_name s) = normalize_channel_name s"
    using normalize_with_idem [OF str_laws_ascii] by (simp add: normalize_channel_name_with)
  from v m i normalize_with_idem [of lower_fn strip_fn s] str_laws_ascii
    normalize_channel_name_with
  show ?thesis by blast
qed

theorem normalize_channel_name_idempotent_witness:
  "str_laws lower strip
   \<and> normalize_with lower strip (normalize_with lower strip ''  Facebook '') = ''meta (facebook)''
   \<and> strip (lower ''meta (facebook)'') = ''meta (facebook)''"
proof -
  have e: "normalize_with lower strip ''  Facebook '' = ''meta (facebook)''"
    by code_simp
  have m: "(''facebook'', ''meta (facebook)'') \<in> set CHANNEL_NORMALIZATIONS"
    by (simp add: CHANNEL_NORMALIZATIONS_def)
  from normalize_channel_name_idempotent [of lower strip "''  Facebook ''"]
  have l: "str_laws lower strip"
    by blast
  with normalize_channel_name_idempotent [of lower strip "''  Facebook ''"] m
  have "normalize_with lower strip (normalize_with lower strip ''  Facebook '')
          = normalize_with lower strip ''  Facebook ''"
    and "strip (lower ''meta (facebook)'') = ''meta (facebook)''"
    by auto
  with e l show ?thesis by simp
qed

end
